theory Spec2Isabelle
  imports Main "HOL-Library.Word" "HOL-Library.Sublist"
begin

unbundle bit_operations_syntax

section \<open>JavaScript strings\<close>

text \<open>
  A JavaScript string is a sequence of UTF-16 code units. The regular expression of
  \<open>fallback\<close> has no \<open>u\<close> flag, so it works on code units, and
  \<open>Buffer.from\<close> reads them as UTF-16. The text literals of the source are ASCII;
  \<open>str\<close> turns such a literal into code units.
\<close>

type_synonym jschar = "16 word"
type_synonym jsstring = "jschar list"

definition str :: "string \<Rightarrow> jsstring" where
  "str s = map of_char s"

text \<open>\<open>String.prototype.split\<close> with a separator of one code unit: the pieces between
  the separators, empty pieces kept; the result is never the empty array.\<close>

fun split :: "jsstring \<Rightarrow> jschar \<Rightarrow> jsstring list" where
  "split [] sep = [[]]"
| "split (c # cs) sep =
     (if c = sep then [] # split cs sep
      else (case split cs sep of
              [] \<Rightarrow> [[c]]
            | piece # pieces \<Rightarrow> (c # piece) # pieces))"

text \<open>\<open>Array.prototype.join\<close> on an array of strings.\<close>

fun join :: "jsstring list \<Rightarrow> jsstring \<Rightarrow> jsstring" where
  "join [] sep = []"
| "join [x] sep = x"
| "join (x # y # ys) sep = x @ sep @ join (y # ys) sep"

section \<open>The regular expression of \<open>fallback\<close>\<close>

text \<open>
  The source's literal is
  \<^verbatim>\<open>/Bearer\s+realm="(?<realm>[^"]+)",\s*service="(?<service>[^"]+)",\s*scope="(?<scope>[^"]+)"/i\<close>.
  It is built from literal characters, the class \<open>\s\<close> and the negated class
  \<open>[^"]\<close> under the greedy quantifiers \<open>*\<close> and \<open>+\<close>, and named groups.
\<close>

datatype char_class = WhiteSpace | NotChr jschar

datatype piece =
    Chars jsstring
  | Star char_class
  | Plus char_class
  | Named string piece

text \<open>
  Flag \<open>i\<close> without flag \<open>u\<close> compares the canonical forms of two code units:
  the upper-case form, except that a code unit from 128 on never takes a canonical form
  below 128. All characters of the pattern are ASCII, so only that is used of the
  canonical form of a code unit from 128 on, which is left as it is here.
\<close>

definition canonicalize :: "jschar \<Rightarrow> jschar" where
  "canonicalize c = (if 0x61 \<le> c \<and> c \<le> 0x7A then c - 0x20 else c)"

text \<open>\<open>\s\<close>: the WhiteSpace and LineTerminator code points of ECMAScript.\<close>

definition is_whitespace :: "jschar \<Rightarrow> bool" where
  "is_whitespace c \<longleftrightarrow>
     c = 0x09 \<or> c = 0x0A \<or> c = 0x0B \<or> c = 0x0C \<or> c = 0x0D \<or> c = 0x20 \<or> c = 0xA0 \<or>
     c = 0x1680 \<or> (0x2000 \<le> c \<and> c \<le> 0x200A) \<or> c = 0x2028 \<or> c = 0x2029 \<or>
     c = 0x202F \<or> c = 0x205F \<or> c = 0x3000 \<or> c = 0xFEFF"

fun in_class :: "char_class \<Rightarrow> jschar \<Rightarrow> bool" where
  "in_class WhiteSpace c = is_whitespace c"
| "in_class (NotChr x) c = (canonicalize c \<noteq> canonicalize x)"

definition chars_match :: "jsstring \<Rightarrow> jsstring \<Rightarrow> bool" where
  "chars_match lit s \<longleftrightarrow> map canonicalize s = map canonicalize lit"

text \<open>
  The numbers of code units a piece may take at the front of the input, in the order in
  which the backtracking matcher tries them: a greedy quantifier takes the longest run
  first and gives code units back one at a time.
\<close>

fun candidates :: "piece \<Rightarrow> jsstring \<Rightarrow> nat list" where
  "candidates (Chars lit) s =
     (if chars_match lit (take (length lit) s) then [length lit] else [])"
| "candidates (Star cl) s = rev [0 ..< Suc (length (takeWhile (in_class cl) s))]"
| "candidates (Plus cl) s = rev [1 ..< Suc (length (takeWhile (in_class cl) s))]"
| "candidates (Named name p) s = candidates p s"

text \<open>The first candidate after which the rest of the pattern matches wins.\<close>

fun attempt :: "(jsstring \<Rightarrow> jsstring list option) \<Rightarrow> jsstring \<Rightarrow> nat list \<Rightarrow> jsstring list option" where
  "attempt rest s [] = None"
| "attempt rest s (n # ns) =
     (case rest (drop n s) of
        Some chunks \<Rightarrow> Some (take n s # chunks)
      | None \<Rightarrow> attempt rest s ns)"

text \<open>Matching the pattern at the front of the input gives the text each piece took.\<close>

primrec match_here :: "piece list \<Rightarrow> jsstring \<Rightarrow> jsstring list option" where
  "match_here [] = (\<lambda>s. Some [])"
| "match_here (p # ps) = (\<lambda>s. attempt (match_here ps) s (candidates p s))"

text \<open>Without the flags \<open>g\<close> and \<open>y\<close> the search tries every start, leftmost first.\<close>

fun search :: "piece list \<Rightarrow> jsstring \<Rightarrow> jsstring list option" where
  "search ps [] = match_here ps []"
| "search ps (c # cs) =
     (case match_here ps (c # cs) of
        Some chunks \<Rightarrow> Some chunks
      | None \<Rightarrow> search ps cs)"

fun groups :: "piece list \<Rightarrow> jsstring list \<Rightarrow> (string \<times> jsstring) list" where
  "groups (Named name p # ps) (chunk # chunks) = (name, chunk) # groups ps chunks"
| "groups (p # ps) (chunk # chunks) = groups ps chunks"
| "groups ps chunks = []"

text \<open>\<open>RegExp.prototype.exec\<close>: \<open>None\<close> is \<open>null\<close>, otherwise the named groups.\<close>

definition exec :: "piece list \<Rightarrow> jsstring \<Rightarrow> (string \<times> jsstring) list option" where
  "exec re s = map_option (groups re) (search re s)"

definition wwwAuthenticateHeaderRegex :: "piece list" where
  "wwwAuthenticateHeaderRegex =
     [Chars (str ''Bearer''), Plus WhiteSpace,
      Chars (str ''realm=\"''), Named ''realm'' (Plus (NotChr 0x22)), Chars (str ''\",''),
      Star WhiteSpace,
      Chars (str ''service=\"''), Named ''service'' (Plus (NotChr 0x22)), Chars (str ''\",''),
      Star WhiteSpace,
      Chars (str ''scope=\"''), Named ''scope'' (Plus (NotChr 0x22)), Chars (str ''\"'')]"

section \<open>Errors and values of the host\<close>

text \<open>
  Every \<open>throw\<close> and every rejected promise is a value. \<open>Error\<close> and
  \<open>UnauthorizedError\<close> carry their message, \<open>TypeError\<close> is what reading a
  property of \<open>null\<close> raises, and \<open>HostError\<close> names a failure of a collaborator
  (secret store, transport, body parser).
\<close>

datatype error =
    Error jsstring
  | UnauthorizedError jsstring
  | TypeError jsstring
  | HostError jsstring

text \<open>What a store hands back: \<open>undefined\<close>, \<open>null\<close> or a string.\<close>

datatype 'a nullable = Undefined | Null | Value 'a

text \<open>\<open>!x\<close> for a value that is a string when it is present.\<close>

fun falsy :: "jsstring nullable \<Rightarrow> bool" where
  "falsy Undefined = True"
| "falsy Null = True"
| "falsy (Value s) = (s = [])"

text \<open>A parsed JSON body. The text of a number is kept as it is; nothing reads it.\<close>

datatype json =
    JNull
  | JBool bool
  | JNumber jsstring
  | JString jsstring
  | JArray "json list"
  | JObject "(jsstring \<times> json) list"

text \<open>
  \<open>body.token\<close>: reading a property of \<open>null\<close> throws; an object gives the value
  stored under the key or \<open>undefined\<close> (\<open>None\<close>); booleans, numbers, strings and
  arrays have no property of that name.
\<close>

fun token :: "json \<Rightarrow> error + json option" where
  "token JNull = Inl (TypeError (str ''Cannot read properties of null (reading 'token')''))"
| "token (JObject fields) = Inr (map_of fields (str ''token''))"
| "token other = Inr None"

text \<open>
  \<open>vscode.l10n.t\<close> with one argument, in the default language: the template with
  \<open>{0}\<close> replaced by the argument. The templates of the source hold \<open>{0}\<close> once.
\<close>

fun l10n_t :: "jsstring \<Rightarrow> jsstring \<Rightarrow> jsstring" where
  "l10n_t [] arg = []"
| "l10n_t (c # cs) arg =
     (if take 3 (c # cs) = str ''{0}'' then arg @ drop 2 cs
      else c # l10n_t cs arg)"

subsection \<open>HTTP\<close>

type_synonym HeadersLike = "(jsstring \<times> jsstring) list"

record RequestLike =
  "method" :: jsstring
  headers :: HeadersLike

text \<open>The response of \<open>fetch\<close>: its header entries in order, status, status text and
  what \<open>json()\<close> resolves or rejects with.\<close>

record Response =
  response_headers :: "(jsstring \<times> jsstring) list"
  response_status :: int
  response_statusText :: jsstring
  response_json :: "error + json"

record ResponseLike =
  headersLike :: "jsstring \<rightharpoonup> jsstring"
  status :: int
  statusText :: jsstring
  succeeded :: bool
  json :: "error + json"

text \<open>
  The collaborators of one call: the memento and the secret store given to the
  constructor, what parsing a URL in \<open>new Request\<close> throws (\<open>None\<close> when it
  parses), and \<open>fetch\<close>, where a rejected promise is \<open>Inl\<close>.
\<close>

record host =
  memento_get :: "jsstring \<Rightarrow> jsstring nullable"
  secret_get :: "jsstring \<Rightarrow> error + jsstring nullable"
  url_refused :: "jsstring \<Rightarrow> error option"
  fetch :: "jsstring \<Rightarrow> RequestLike \<Rightarrow> error + Response"

text \<open>
  \<open>new Request(url, request)\<close> of node-fetch parses the URL and then copies the
  headers in order, and throws a TypeError at the first name that is empty or holds a
  code unit that is no token character, or the first value that holds a code unit other
  than tab, 0x20 to 0x7E and 0x80 to 0xFF.
\<close>

definition legal_name_char :: "jschar \<Rightarrow> bool" where
  "legal_name_char c \<longleftrightarrow>
     (0x5E \<le> c \<and> c \<le> 0x7A) \<or> (0x41 \<le> c \<and> c \<le> 0x5A) \<or> (0x30 \<le> c \<and> c \<le> 0x39) \<or>
     c = 0x21 \<or> (0x23 \<le> c \<and> c \<le> 0x27) \<or> c = 0x2A \<or> c = 0x2B \<or> c = 0x2D \<or> c = 0x2E \<or>
     c = 0x7C \<or> c = 0x7E"

definition legal_value_char :: "jschar \<Rightarrow> bool" where
  "legal_value_char c \<longleftrightarrow> c = 0x09 \<or> (0x20 \<le> c \<and> c \<le> 0x7E) \<or> (0x80 \<le> c \<and> c \<le> 0xFF)"

fun validate_headers :: "HeadersLike \<Rightarrow> error option" where
  "validate_headers [] = None"
| "validate_headers ((name, v) # rest) =
     (if name = [] \<or> \<not> list_all legal_name_char name
      then Some (TypeError (name @ str '' is not a legal HTTP header name''))
      else if \<not> list_all legal_value_char v
      then Some (TypeError (v @ str '' is not a legal HTTP header value''))
      else validate_headers rest)"

definition new_Request :: "host \<Rightarrow> jsstring \<Rightarrow> RequestLike \<Rightarrow> error + unit" where
  "new_Request h url request =
     (case url_refused h url of
        Some e \<Rightarrow> Inl e
      | None \<Rightarrow> (case validate_headers (headers request) of Some e \<Rightarrow> Inl e | None \<Rightarrow> Inr ()))"

text \<open>
  \<open>httpRequest\<close> (utils/httpRequest.ts). The third argument is optional and defaults
  to \<open>true\<close>. With the result comes the list of requests handed to \<open>fetch\<close>: none
  when \<open>new Request\<close> throws, since \<open>fetch\<close> is then never called.
\<close>

definition httpRequest ::
  "host \<Rightarrow> jsstring \<Rightarrow> RequestLike \<Rightarrow> bool option \<Rightarrow> (error + ResponseLike) \<times> (jsstring \<times> RequestLike) list" where
  "httpRequest h url request throwOnFailureArg =
     (let throwOnFailure = (case throwOnFailureArg of None \<Rightarrow> True | Some b \<Rightarrow> b) in
      case new_Request h url request of
        Inl e \<Rightarrow> (Inl e, [])
      | Inr fetchRequest \<Rightarrow>
          (case fetch h url request of
             Inl e \<Rightarrow> Inl e
           | Inr response \<Rightarrow>
               (let headers = fold (\<lambda>(header, v) hs. hs(header \<mapsto> v)) (response_headers response) Map.empty in
                if throwOnFailure \<and> response_status response = 401
                then Inl (UnauthorizedError
                       (l10n_t (str ''Request to '{0}' failed with status code 401: Unauthorized'') url))
                else Inr \<lparr>headersLike = headers,
                          status = response_status response,
                          statusText = response_statusText response,
                          succeeded = (response_status response \<ge> 200 \<and> response_status response < 300),
                          json = response_json response\<rparr>),
           [(url, request)]))"

section \<open>\<open>Buffer.from(text).toString('base64')\<close>\<close>

text \<open>\<open>Buffer.from\<close> encodes the code units as UTF-8: a surrogate pair is one code point
  of four bytes, a lone surrogate becomes U+FFFD.\<close>

fun utf8 :: "jsstring \<Rightarrow> 8 word list" where
  "utf8 [] = []"
| "utf8 (c # cs) =
     (if c < 0x80 then ucast c # utf8 cs
      else if c < 0x800 then
        (0xC0 OR ucast (drop_bit 6 c)) # (0x80 OR ucast (c AND 0x3F)) # utf8 cs
      else if 0xD800 \<le> c \<and> c \<le> 0xDBFF then
        (case cs of
           [] \<Rightarrow> [0xEF, 0xBF, 0xBD]
         | d # ds \<Rightarrow>
            if 0xDC00 \<le> d \<and> d \<le> 0xDFFF then
              (let cp = (0x10000 :: 32 word) + push_bit 10 (ucast (c AND 0x3FF)) + ucast (d AND 0x3FF) in
               (0xF0 OR ucast (drop_bit 18 cp)) # (0x80 OR ucast (drop_bit 12 cp AND 0x3F)) #
               (0x80 OR ucast (drop_bit 6 cp AND 0x3F)) # (0x80 OR ucast (cp AND 0x3F)) # utf8 ds)
            else 0xEF # 0xBF # 0xBD # utf8 cs)
      else if 0xDC00 \<le> c \<and> c \<le> 0xDFFF then 0xEF # 0xBF # 0xBD # utf8 cs
      else (0xE0 OR ucast (drop_bit 12 c)) # (0x80 OR ucast (drop_bit 6 c AND 0x3F)) #
           (0x80 OR ucast (c AND 0x3F)) # utf8 cs)"

definition base64_digit :: "8 word \<Rightarrow> jschar" where
  "base64_digit i =
     str ''ABCDEFGHIJKLMNOPQRSTUVWXYZabcdefghijklmnopqrstuvwxyz0123456789+/'' ! unat (i AND 0x3F)"

fun base64 :: "8 word list \<Rightarrow> jsstring" where
  "base64 [] = []"
| "base64 [a] =
     [base64_digit (drop_bit 2 a), base64_digit (push_bit 4 (a AND 3)), 0x3D, 0x3D]"
| "base64 [a, b] =
     [base64_digit (drop_bit 2 a), base64_digit (push_bit 4 (a AND 3) OR drop_bit 4 b),
      base64_digit (push_bit 2 (b AND 0xF)), 0x3D]"
| "base64 (a # b # c # rest) =
     [base64_digit (drop_bit 2 a), base64_digit (push_bit 4 (a AND 3) OR drop_bit 4 b),
      base64_digit (push_bit 2 (b AND 0xF) OR drop_bit 6 c), base64_digit (c AND 0x3F)]
     @ base64 rest"

section \<open>\<open>BasicOAuthProvider\<close>\<close>

record BasicCredentials =
  username :: jsstring
  secret :: jsstring

record account =
  label :: jsstring
  account_id :: jsstring

text \<open>The session. In the OAuth branch \<open>accessToken\<close> is whatever the body's
  \<open>token\<close> is: any JSON value, or \<open>undefined\<close> (\<open>None\<close>).\<close>

record session =
  session_id :: jsstring
  session_type :: jsstring
  session_account :: account
  accessToken :: "json option"
  scopes :: "jsstring list"

text \<open>The fields of the class; \<open>None\<close> is \<open>undefined\<close>. \<open>storageKey\<close> is
  read-only.\<close>

record provider =
  storageKey :: jsstring
  oAuthEndpoint :: "jsstring option"
  oAuthService :: "jsstring option"
  defaultScopes :: "jsstring list option"
  private_didFallback :: bool

definition BasicOAuthProvider :: "jsstring \<Rightarrow> provider" where
  "BasicOAuthProvider key =
     \<lparr>storageKey = key, oAuthEndpoint = None, oAuthService = None,
      defaultScopes = None, private_didFallback = False\<rparr>"

definition getBasicCredentials :: "host \<Rightarrow> provider \<Rightarrow> error + BasicCredentials" where
  "getBasicCredentials h this =
     (let usernameValue = memento_get h (storageKey this @ str ''.username'') in
      case secret_get h (storageKey this @ str ''.secret'') of
        Inl e \<Rightarrow> Inl e
      | Inr secretValue \<Rightarrow>
          if falsy usernameValue
          then Inl (Error (l10n_t (str ''Could not load username for {0}'') (storageKey this)))
          else (case secretValue of
                  Undefined \<Rightarrow> Inl (Error (l10n_t (str ''Could not load secret for {0}'') (storageKey this)))
                | Null \<Rightarrow> Inl (Error (l10n_t (str ''Could not load secret for {0}'') (storageKey this)))
                | Value s \<Rightarrow>
                    (case usernameValue of
                       Value u \<Rightarrow> Inr \<lparr>username = u, secret = s\<rparr>
                     | _ \<Rightarrow> Inl (Error (l10n_t (str ''Could not load username for {0}'') (storageKey this))))))"

definition getBasicAuthToken :: "jsstring \<Rightarrow> jsstring \<Rightarrow> jsstring" where
  "getBasicAuthToken u s = base64 (utf8 (u @ str '':'' @ s))"

text \<open>
  \<open>getSession\<close> never reads its second parameter \<open>options\<close>, which is left out.
  With the result comes the list of requests handed to \<open>fetch\<close>.
\<close>

definition getSession ::
  "host \<Rightarrow> provider \<Rightarrow> jsstring list \<Rightarrow> (error + session) \<times> (jsstring \<times> RequestLike) list" where
  "getSession h this scopesArg =
     (case getBasicCredentials h this of
        Inl e \<Rightarrow> (Inl e, [])
      | Inr credentials \<Rightarrow>
          if oAuthEndpoint this = None \<or> oAuthService this = None
          then (Inr \<lparr>session_id = str ''basic'',
                     session_type = str ''Basic'',
                     session_account = \<lparr>label = username credentials, account_id = username credentials\<rparr>,
                     accessToken = Some (JString (getBasicAuthToken (username credentials) (secret credentials))),
                     scopes = scopesArg\<rparr>, [])
          else
            (let request =
                   \<lparr>method = str ''GET'',
                    headers =
                      [(str ''Authorization'',
                          str ''Basic '' @ getBasicAuthToken (username credentials) (secret credentials)),
                       (str ''grant_type'', str ''password''),
                       (str ''service'', the (oAuthService this)),
                       (str ''scope'',
                          join ((case defaultScopes this of None \<Rightarrow> [] | Some ds \<Rightarrow> ds) @ scopesArg) (str '' ''))]\<rparr>;
                 (result, sent) = httpRequest h (the (oAuthEndpoint this)) request None
             in case result of
                  Inl e \<Rightarrow> (Inl e, sent)
                | Inr oAuthResponse \<Rightarrow>
                    (case json oAuthResponse of
                       Inl e \<Rightarrow> (Inl e, sent)
                     | Inr body \<Rightarrow>
                         (case token body of
                            Inl e \<Rightarrow> (Inl e, sent)
                          | Inr tok \<Rightarrow>
                              (Inr \<lparr>session_id = str ''oauth'',
                                    session_type = str ''Bearer'',
                                    session_account = \<lparr>label = username credentials, account_id = username credentials\<rparr>,
                                    accessToken = tok,
                                    scopes = scopesArg\<rparr>, sent)))))"

definition removeSession :: "provider \<Rightarrow> jsstring nullable \<Rightarrow> error + unit" where
  "removeSession this sessionId = Inl (Error (str ''TODO: Method not implemented.''))"

text \<open>\<open>match?.groups?.name\<close>: \<open>undefined\<close> when there is no match or no such group.\<close>

definition group :: "(string \<times> jsstring) list option \<Rightarrow> string \<Rightarrow> jsstring nullable" where
  "group match name =
     (case match of
        None \<Rightarrow> Undefined
      | Some gs \<Rightarrow> (case map_of gs name of None \<Rightarrow> Undefined | Some v \<Rightarrow> Value v))"

text \<open>\<open>fallback\<close> returns its outcome and the provider as the call leaves it.\<close>

definition fallback :: "provider \<Rightarrow> jsstring \<Rightarrow> (error + unit) \<times> provider" where
  "fallback this wwwAuthenticateHeader =
     (let match = exec wwwAuthenticateHeaderRegex wwwAuthenticateHeader in
      if falsy (group match ''realm'') \<or> falsy (group match ''service'') \<or> falsy (group match ''scope'')
      then (Inl (Error (l10n_t (str ''Unable to parse WWW-Authenticate header: \"{0}\"'') wwwAuthenticateHeader)),
            this)
      else
        (case (group match ''realm'', group match ''service'', group match ''scope'') of
           (Value realm, Value service, Value scope) \<Rightarrow>
             (Inr (),
              this\<lparr>oAuthEndpoint := Some realm,
                   oAuthService := Some service,
                   defaultScopes := Some (split scope 0x20),
                   private_didFallback := True\<rparr>)
         | _ \<Rightarrow> (Inl (TypeError (str ''Cannot read properties of undefined'')), this)))"

definition didFallback :: "provider \<Rightarrow> bool" where
  "didFallback this = private_didFallback this"

section \<open>Sequences of calls on one provider\<close>

text \<open>A call carries what the collaborators answer while it runs.\<close>

datatype call =
    GetSession host "jsstring list"
  | RemoveSession "jsstring nullable"
  | Fallback jsstring
  | DidFallback

datatype outcome =
    Threw error
  | ReturnedSession session
  | ReturnedBool bool
  | ReturnedVoid

fun step :: "provider \<Rightarrow> call \<Rightarrow> outcome \<times> provider" where
  "step this (GetSession h scopesArg) =
     (case fst (getSession h this scopesArg) of
        Inl e \<Rightarrow> (Threw e, this)
      | Inr s \<Rightarrow> (ReturnedSession s, this))"
| "step this (RemoveSession sessionId) =
     (case removeSession this sessionId of
        Inl e \<Rightarrow> (Threw e, this)
      | Inr u \<Rightarrow> (ReturnedVoid, this))"
| "step this (Fallback header) =
     (case fallback this header of
        (Inl e, this') \<Rightarrow> (Threw e, this')
      | (Inr u, this') \<Rightarrow> (ReturnedVoid, this'))"
| "step this DidFallback = (ReturnedBool (didFallback this), this)"

fun run :: "provider \<Rightarrow> call list \<Rightarrow> provider" where
  "run this [] = this"
| "run this (c # cs) = run (snd (step this c)) cs"

text \<open>Whether some \<open>fallback\<close> call of the sequence returned without throwing.\<close>

fun fallback_succeeded :: "provider \<Rightarrow> call list \<Rightarrow> bool" where
  "fallback_succeeded this [] = False"
| "fallback_succeeded this (c # cs) =
     ((case c of Fallback header \<Rightarrow> fst (step this c) = ReturnedVoid | _ \<Rightarrow> False)
      \<or> fallback_succeeded (snd (step this c)) cs)"

section \<open>What the regular expression denotes\<close>

text \<open>The texts a piece stands for, without reference to the order of the search.\<close>

fun conforms :: "piece \<Rightarrow> jsstring \<Rightarrow> bool" where
  "conforms (Chars lit) chunk = chars_match lit chunk"
| "conforms (Star cl) chunk = list_all (in_class cl) chunk"
| "conforms (Plus cl) chunk = (chunk \<noteq> [] \<and> list_all (in_class cl) chunk)"
| "conforms (Named name p) chunk = conforms p chunk"

definition occurs :: "piece list \<Rightarrow> jsstring \<Rightarrow> bool" where
  "occurs re s \<longleftrightarrow>
     (\<exists>before chunks after. s = before @ concat chunks @ after \<and> list_all2 conforms re chunks)"

text \<open>
  The headers in which the challenge occurs, written out: somewhere in the header stand
  \<open>Bearer\<close>, white space, \<open>realm="\<close>, a realm, \<open>",\<close>, optional white space,
  \<open>service="\<close>, a service, \<open>",\<close>, optional white space, \<open>scope="\<close>, a scope and
  \<open>"\<close>; the three values are not empty and hold no double quote, and every keyword
  is read without regard to the case of its letters.
\<close>

definition challenge_pattern :: "jsstring \<Rightarrow> bool" where
  "challenge_pattern h \<longleftrightarrow>
     (\<exists>before scheme ws1 key1 realm end1 ws2 key2 service end2 ws3 key3 scope end3 after.
        h = before @ scheme @ ws1 @ key1 @ realm @ end1 @ ws2 @ key2 @ service @ end2 @ ws3
              @ key3 @ scope @ end3 @ after \<and>
        chars_match (str ''Bearer'') scheme \<and>
        ws1 \<noteq> [] \<and> list_all is_whitespace ws1 \<and>
        chars_match (str ''realm=\"'') key1 \<and> realm \<noteq> [] \<and> 0x22 \<notin> set realm \<and>
        chars_match (str ''\",'') end1 \<and>
        list_all is_whitespace ws2 \<and>
        chars_match (str ''service=\"'') key2 \<and> service \<noteq> [] \<and> 0x22 \<notin> set service \<and>
        chars_match (str ''\",'') end2 \<and>
        list_all is_whitespace ws3 \<and>
        chars_match (str ''scope=\"'') key3 \<and> scope \<noteq> [] \<and> 0x22 \<notin> set scope \<and>
        chars_match (str ''\"'') end3)"

text \<open>
  The pattern in the words of the specification (4.2 and 6):
  \<^verbatim>\<open>Bearer realm="<realm>", service="<service>", scope="<scope>"\<close> with the scheme
  keyword in any case, each value a quoted string, and white space tolerated between the
  fields. Where the words leave a choice the wider reading is taken: the pattern may
  stand anywhere in the header, and white space and values may be empty.
\<close>

definition spec_challenge_pattern :: "jsstring \<Rightarrow> bool" where
  "spec_challenge_pattern h \<longleftrightarrow>
     (\<exists>before scheme ws1 realm ws2 service ws3 scope after.
        h = before @ scheme @ ws1 @ str ''realm=\"'' @ realm @ str ''\",'' @ ws2
              @ str ''service=\"'' @ service @ str ''\",'' @ ws3
              @ str ''scope=\"'' @ scope @ str ''\"'' @ after \<and>
        chars_match (str ''Bearer'') scheme \<and>
        list_all is_whitespace ws1 \<and> list_all is_whitespace ws2 \<and> list_all is_whitespace ws3 \<and>
        0x22 \<notin> set realm \<and> 0x22 \<notin> set service \<and> 0x22 \<notin> set scope)"

section \<open>Example values\<close>

definition example_header :: jsstring where
  "example_header =
     str ''Bearer realm=\"https://auth.example/token\", service=\"registry.example\", scope=\"repository:x:pull\"''"

text \<open>The same challenge with the first field name capitalised.\<close>

definition capital_header :: jsstring where
  "capital_header =
     str ''Bearer Realm=\"https://auth.example/token\", service=\"registry.example\", scope=\"repository:x:pull\"''"

text \<open>A scope with a line feed in it: \<open>a\<close>, line feed, \<open>b\<close>.\<close>

definition newline_scope :: jsstring where
  "newline_scope = [0x61, 0x0A, 0x62]"

text \<open>A header of the wrong scheme.\<close>

definition basic_header :: jsstring where
  "basic_header = str ''Basic realm=\"registry.example\"''"

definition token_response :: Response where
  "token_response =
     \<lparr>response_headers = [(str ''content-type'', str ''application/json'')],
      response_status = 200,
      response_statusText = str ''OK'',
      response_json = Inr (JObject [(str ''token'', JString (str ''abc''))])\<rparr>"

text \<open>A token endpoint that answers 403 with a body that has no token.\<close>

definition forbidden_response :: Response where
  "forbidden_response =
     \<lparr>response_headers = [],
      response_status = 403,
      response_statusText = str ''Forbidden'',
      response_json = Inr (JObject [(str ''errors'', JArray [])])\<rparr>"

text \<open>A token endpoint that answers 200 with the body \<open>null\<close>.\<close>

definition null_response :: Response where
  "null_response =
     \<lparr>response_headers = [],
      response_status = 200,
      response_statusText = str ''OK'',
      response_json = Inr JNull\<rparr>"

definition unauthorized_response :: Response where
  "unauthorized_response =
     \<lparr>response_headers = [(str ''www-authenticate'', example_header)],
      response_status = 401,
      response_statusText = str ''Unauthorized'',
      response_json = Inr (JObject [])\<rparr>"

text \<open>A host that knows alice under the key \<open>registry\<close>, parses every URL and answers
  every request with the given response.\<close>

definition example_host :: "jsstring nullable \<Rightarrow> Response \<Rightarrow> host" where
  "example_host stored_secret response =
     \<lparr>memento_get = (\<lambda>key. if key = str ''registry.username'' then Value (str ''alice'') else Undefined),
      secret_get = (\<lambda>key. if key = str ''registry.secret'' then Inr stored_secret else Inr Undefined),
      url_refused = (\<lambda>url. None),
      fetch = (\<lambda>url request. Inr response)\<rparr>"

definition basic_provider :: provider where
  "basic_provider = BasicOAuthProvider (str ''registry'')"

definition oauth_provider :: provider where
  "oauth_provider =
     \<lparr>storageKey = str ''registry'',
      oAuthEndpoint = Some (str ''https://auth.example/token''),
      oAuthService = Some (str ''registry.example''),
      defaultScopes = Some [str ''repository:x:pull''],
      private_didFallback = True\<rparr>"

section \<open>The matcher finds exactly what the expression denotes\<close>

lemma take_takeWhile_all:
  "n \<le> length (takeWhile P s) \<Longrightarrow> list_all P (take n s)"
proof (induction s arbitrary: n)
  case Nil
  then show ?case by simp
next
  case (Cons c s)
  then show ?case by (cases n) (auto split: if_splits)
qed

lemma candidates_sound:
  "n \<in> set (candidates p s) \<Longrightarrow> n \<le> length s \<and> conforms p (take n s)"
proof (induction p)
  case (Chars lit)
  then have m: "chars_match lit (take (length lit) s)" and n: "n = length lit"
    by (auto split: if_splits)
  from m have "length (take (length lit) s) = length lit"
    unfolding chars_match_def by (metis length_map)
  then have "length lit \<le> length s" by simp
  with m n show ?case by simp
next
  case (Star cl)
  then have "n \<le> length (takeWhile (in_class cl) s)" by auto
  moreover have "length (takeWhile (in_class cl) s) \<le> length s" by (rule length_takeWhile_le)
  ultimately show ?case by (simp add: take_takeWhile_all)
next
  case (Plus cl)
  then have n: "1 \<le> n" "n \<le> length (takeWhile (in_class cl) s)" by auto
  moreover have le: "length (takeWhile (in_class cl) s) \<le> length s" by (rule length_takeWhile_le)
  ultimately have "take n s \<noteq> []" by auto
  with n le show ?case by (simp add: take_takeWhile_all)
next
  case (Named name p)
  then show ?case by simp
qed

lemma length_le_takeWhile:
  "list_all P c \<Longrightarrow> length c \<le> length (takeWhile P (c @ r))"
  by (induction c) auto

lemma candidates_complete:
  "conforms p c \<Longrightarrow> length c \<in> set (candidates p (c @ r))"
proof (induction p)
  case (Chars lit)
  then have "map canonicalize c = map canonicalize lit" by (simp add: chars_match_def)
  then have "length c = length lit" by (metis length_map)
  with Chars show ?case by simp
next
  case (Star cl)
  then show ?case using length_le_takeWhile [of "in_class cl" c r] by auto
next
  case (Plus cl)
  then have "1 \<le> length c" by (cases c) auto
  with Plus show ?case using length_le_takeWhile [of "in_class cl" c r] by auto
next
  case (Named name p)
  then show ?case by simp
qed

lemma attempt_sound:
  "attempt k s ns = Some r \<Longrightarrow>
     \<exists>n chunks. n \<in> set ns \<and> k (drop n s) = Some chunks \<and> r = take n s # chunks"
  by (induction ns) (auto split: option.splits)

lemma attempt_complete:
  "n \<in> set ns \<Longrightarrow> k (drop n s) \<noteq> None \<Longrightarrow> attempt k s ns \<noteq> None"
  by (induction ns) (auto split: option.splits)

lemma match_here_sound:
  "match_here ps s = Some chunks \<Longrightarrow>
     list_all2 conforms ps chunks \<and> (\<exists>after. s = concat chunks @ after)"
proof (induction ps arbitrary: s chunks)
  case Nil
  then show ?case by simp
next
  case (Cons p ps)
  then obtain n cs where n: "n \<in> set (candidates p s)"
    and r: "match_here ps (drop n s) = Some cs" and c: "chunks = take n s # cs"
    by (auto dest: attempt_sound)
  from Cons.IH [OF r] obtain after where
    cs: "list_all2 conforms ps cs" and d: "drop n s = concat cs @ after" by blast
  have "s = take n s @ drop n s" by simp
  with d have "s = concat (take n s # cs) @ after" by simp
  with candidates_sound [OF n] cs c show ?case by auto
qed

lemma match_here_complete:
  "list_all2 conforms ps chunks \<Longrightarrow> match_here ps (concat chunks @ after) \<noteq> None"
proof (induction ps arbitrary: chunks)
  case Nil
  then show ?case by simp
next
  case (Cons p ps)
  then obtain c cs where ch: "chunks = c # cs" and c: "conforms p c"
    and cs: "list_all2 conforms ps cs"
    by (auto simp: list_all2_Cons1)
  have "length c \<in> set (candidates p (c @ concat cs @ after))"
    by (rule candidates_complete [OF c])
  moreover have "match_here ps (drop (length c) (c @ concat cs @ after)) \<noteq> None"
    using Cons.IH [OF cs] by simp
  ultimately show ?case using ch by (simp add: attempt_complete)
qed

lemma search_sound:
  "search ps s = Some chunks \<Longrightarrow>
     list_all2 conforms ps chunks \<and> (\<exists>before after. s = before @ concat chunks @ after)"
proof (induction s)
  case Nil
  then show ?case using match_here_sound [of ps "[]" chunks] by auto
next
  case (Cons c cs)
  show ?case
  proof (cases "match_here ps (c # cs)")
    case None
    with Cons obtain before after where "list_all2 conforms ps chunks"
      "cs = before @ concat chunks @ after" by auto
    then have "c # cs = (c # before) @ concat chunks @ after" by simp
    with \<open>list_all2 conforms ps chunks\<close> show ?thesis by blast
  next
    case (Some r)
    with Cons.prems have "match_here ps (c # cs) = Some chunks" by simp
    from match_here_sound [OF this] show ?thesis by (metis append_Nil)
  qed
qed

lemma search_match_here:
  "match_here ps s \<noteq> None \<Longrightarrow> search ps s \<noteq> None"
  by (cases s) (auto split: option.splits)

lemma search_complete:
  "list_all2 conforms ps chunks \<Longrightarrow> search ps (before @ concat chunks @ after) \<noteq> None"
proof (induction before)
  case Nil
  then show ?case
    using search_match_here [OF match_here_complete [of ps chunks after]] by simp
next
  case (Cons c before)
  then show ?case by (auto split: option.splits)
qed

lemma search_iff_occurs: "search re s \<noteq> None \<longleftrightarrow> occurs re s"
  unfolding occurs_def
  using search_sound [of re s] search_complete [of re] by (metis not_Some_eq)


lemma canonicalize_quote: "canonicalize c = 0x22 \<longleftrightarrow> c = 0x22"
  unfolding canonicalize_def by unat_arith

lemma in_class_NotChr_quote: "in_class (NotChr 0x22) c \<longleftrightarrow> c \<noteq> 0x22"
  using canonicalize_quote [of c] canonicalize_quote [of "0x22"] by simp

lemma list_all_not_quote: "list_all (in_class (NotChr 0x22)) s \<longleftrightarrow> 0x22 \<notin> set s"
  by (induction s) (auto simp: in_class_NotChr_quote simp del: in_class.simps)

lemma in_class_WhiteSpace: "in_class WhiteSpace = is_whitespace"
  by (rule ext) simp

lemma conforms_regexD:
  "list_all2 conforms wwwAuthenticateHeaderRegex chunks \<Longrightarrow>
     \<exists>scheme ws1 key1 realm end1 ws2 key2 service end2 ws3 key3 scope end3.
        chunks = [scheme, ws1, key1, realm, end1, ws2, key2, service, end2, ws3, key3, scope, end3] \<and>
        chars_match (str ''Bearer'') scheme \<and>
        ws1 \<noteq> [] \<and> list_all is_whitespace ws1 \<and>
        chars_match (str ''realm=\"'') key1 \<and> realm \<noteq> [] \<and> 0x22 \<notin> set realm \<and>
        chars_match (str ''\",'') end1 \<and>
        list_all is_whitespace ws2 \<and>
        chars_match (str ''service=\"'') key2 \<and> service \<noteq> [] \<and> 0x22 \<notin> set service \<and>
        chars_match (str ''\",'') end2 \<and>
        list_all is_whitespace ws3 \<and>
        chars_match (str ''scope=\"'') key3 \<and> scope \<noteq> [] \<and> 0x22 \<notin> set scope \<and>
        chars_match (str ''\"'') end3"
  unfolding wwwAuthenticateHeaderRegex_def
  by (simp only: list_all2_Cons1 list_all2_Nil conforms.simps in_class_WhiteSpace list_all_not_quote)
     (elim exE conjE, simp)

lemma conforms_regexI:
  "chars_match (str ''Bearer'') scheme \<and>
   ws1 \<noteq> [] \<and> list_all is_whitespace ws1 \<and>
   chars_match (str ''realm=\"'') key1 \<and> realm \<noteq> [] \<and> 0x22 \<notin> set realm \<and>
   chars_match (str ''\",'') end1 \<and>
   list_all is_whitespace ws2 \<and>
   chars_match (str ''service=\"'') key2 \<and> service \<noteq> [] \<and> 0x22 \<notin> set service \<and>
   chars_match (str ''\",'') end2 \<and>
   list_all is_whitespace ws3 \<and>
   chars_match (str ''scope=\"'') key3 \<and> scope \<noteq> [] \<and> 0x22 \<notin> set scope \<and>
   chars_match (str ''\"'') end3 \<Longrightarrow>
   list_all2 conforms wwwAuthenticateHeaderRegex
     [scheme, ws1, key1, realm, end1, ws2, key2, service, end2, ws3, key3, scope, end3]"
  unfolding wwwAuthenticateHeaderRegex_def
  by (elim conjE) (simp add: in_class_WhiteSpace list_all_not_quote del: in_class.simps)

lemma occurs_challenge_pattern:
  "occurs wwwAuthenticateHeaderRegex h \<longleftrightarrow> challenge_pattern h"
proof
  assume "occurs wwwAuthenticateHeaderRegex h"
  then obtain before chunks after where h: "h = before @ concat chunks @ after"
    and c: "list_all2 conforms wwwAuthenticateHeaderRegex chunks"
    unfolding occurs_def by blast
  from conforms_regexD [OF c]
  obtain scheme ws1 key1 realm end1 ws2 key2 service end2 ws3 key3 scope end3 where
    ch: "chunks = [scheme, ws1, key1, realm, end1, ws2, key2, service, end2, ws3, key3, scope, end3]"
    and ok: "chars_match (str ''Bearer'') scheme \<and>
        ws1 \<noteq> [] \<and> list_all is_whitespace ws1 \<and>
        chars_match (str ''realm=\"'') key1 \<and> realm \<noteq> [] \<and> 0x22 \<notin> set realm \<and>
        chars_match (str ''\",'') end1 \<and>
        list_all is_whitespace ws2 \<and>
        chars_match (str ''service=\"'') key2 \<and> service \<noteq> [] \<and> 0x22 \<notin> set service \<and>
        chars_match (str ''\",'') end2 \<and>
        list_all is_whitespace ws3 \<and>
        chars_match (str ''scope=\"'') key3 \<and> scope \<noteq> [] \<and> 0x22 \<notin> set scope \<and>
        chars_match (str ''\"'') end3"
    by blast
  have "h = before @ scheme @ ws1 @ key1 @ realm @ end1 @ ws2 @ key2 @ service @ end2 @ ws3
              @ key3 @ scope @ end3 @ after"
    using h ch by simp
  with ok show "challenge_pattern h"
    unfolding challenge_pattern_def by blast
next
  assume "challenge_pattern h"
  then obtain before scheme ws1 key1 realm end1 ws2 key2 service end2 ws3 key3 scope end3 after
    where h: "h = before @ scheme @ ws1 @ key1 @ realm @ end1 @ ws2 @ key2 @ service @ end2 @ ws3
              @ key3 @ scope @ end3 @ after"
      and ok: "chars_match (str ''Bearer'') scheme \<and>
        ws1 \<noteq> [] \<and> list_all is_whitespace ws1 \<and>
        chars_match (str ''realm=\"'') key1 \<and> realm \<noteq> [] \<and> 0x22 \<notin> set realm \<and>
        chars_match (str ''\",'') end1 \<and>
        list_all is_whitespace ws2 \<and>
        chars_match (str ''service=\"'') key2 \<and> service \<noteq> [] \<and> 0x22 \<notin> set service \<and>
        chars_match (str ''\",'') end2 \<and>
        list_all is_whitespace ws3 \<and>
        chars_match (str ''scope=\"'') key3 \<and> scope \<noteq> [] \<and> 0x22 \<notin> set scope \<and>
        chars_match (str ''\"'') end3"
    unfolding challenge_pattern_def by blast
  let ?chunks = "[scheme, ws1, key1, realm, end1, ws2, key2, service, end2, ws3, key3, scope, end3]"
  have "list_all2 conforms wwwAuthenticateHeaderRegex ?chunks"
    by (rule conforms_regexI [OF ok])
  moreover have "h = before @ concat ?chunks @ after" using h by simp
  ultimately show "occurs wwwAuthenticateHeaderRegex h" unfolding occurs_def by blast
qed

lemma exec_None_iff:
  "exec wwwAuthenticateHeaderRegex h = None \<longleftrightarrow> \<not> challenge_pattern h"
  using search_iff_occurs [of wwwAuthenticateHeaderRegex h] occurs_challenge_pattern [of h]
  by (cases "search wwwAuthenticateHeaderRegex h") (simp_all add: exec_def)

lemma exec_Some:
  assumes "exec wwwAuthenticateHeaderRegex h = Some gs"
  shows "\<exists>realm service scope.
           gs = [(''realm'', realm), (''service'', service), (''scope'', scope)] \<and>
           realm \<noteq> [] \<and> service \<noteq> [] \<and> scope \<noteq> [] \<and>
           0x22 \<notin> set realm \<and> 0x22 \<notin> set service \<and> 0x22 \<notin> set scope"
proof -
  from assms obtain chunks where s: "search wwwAuthenticateHeaderRegex h = Some chunks"
    and gs: "gs = groups wwwAuthenticateHeaderRegex chunks"
    by (auto simp: exec_def)
  from search_sound [OF s] have "list_all2 conforms wwwAuthenticateHeaderRegex chunks" by simp
  from conforms_regexD [OF this]
  obtain scheme ws1 key1 realm end1 ws2 key2 service end2 ws3 key3 scope end3 where
    ch: "chunks = [scheme, ws1, key1, realm, end1, ws2, key2, service, end2, ws3, key3, scope, end3]"
    and ok: "realm \<noteq> []" "service \<noteq> []" "scope \<noteq> []"
      "0x22 \<notin> set realm" "0x22 \<notin> set service" "0x22 \<notin> set scope"
    by blast
  have "gs = [(''realm'', realm), (''service'', service), (''scope'', scope)]"
    unfolding gs ch wwwAuthenticateHeaderRegex_def by simp
  with ok show ?thesis by blast
qed

section \<open>\<open>fallback\<close>\<close>

lemma l10n_parse:
  "l10n_t (str ''Unable to parse WWW-Authenticate header: \"{0}\"'') h =
     str ''Unable to parse WWW-Authenticate header: \"'' @ h @ str ''\"''"
  by (simp add: str_def)

lemma fallback_None:
  "exec wwwAuthenticateHeaderRegex h = None \<Longrightarrow>
     fallback this h =
       (Inl (Error (str ''Unable to parse WWW-Authenticate header: \"'' @ h @ str ''\"'')), this)"
  by (simp add: fallback_def group_def l10n_parse)

lemma fallback_Some:
  "exec wwwAuthenticateHeaderRegex h = Some gs \<Longrightarrow>
     \<exists>realm service scope.
       gs = [(''realm'', realm), (''service'', service), (''scope'', scope)] \<and>
       fallback this h =
         (Inr (), this\<lparr>oAuthEndpoint := Some realm, oAuthService := Some service,
                       defaultScopes := Some (split scope 0x20), private_didFallback := True\<rparr>)"
proof -
  assume e: "exec wwwAuthenticateHeaderRegex h = Some gs"
  from exec_Some [OF e] obtain realm service scope where
    gs: "gs = [(''realm'', realm), (''service'', service), (''scope'', scope)]"
    and ne: "realm \<noteq> []" "service \<noteq> []" "scope \<noteq> []"
    by blast
  have "fallback this h =
         (Inr (), this\<lparr>oAuthEndpoint := Some realm, oAuthService := Some service,
                       defaultScopes := Some (split scope 0x20), private_didFallback := True\<rparr>)"
    using ne by (simp add: fallback_def group_def e gs)
  with gs show ?thesis by blast
qed

lemma fallback_Inl:
  "fst (fallback this h) = Inl e \<Longrightarrow> snd (fallback this h) = this"
proof (cases "exec wwwAuthenticateHeaderRegex h")
  case None
  then show ?thesis by (simp add: fallback_None)
next
  case (Some gs)
  assume "fst (fallback this h) = Inl e"
  with fallback_Some [OF Some, of this] show ?thesis by auto
qed

lemma spec_challenge_pattern_realm:
  "spec_challenge_pattern h \<Longrightarrow> sublist (str ''realm=\"'') h"
proof -
  assume "spec_challenge_pattern h"
  then obtain before scheme ws1 rest where
    "h = (before @ scheme @ ws1) @ str ''realm=\"'' @ rest"
    unfolding spec_challenge_pattern_def by auto
  then show ?thesis unfolding sublist_def by blast
qed



text \<open>
  C4, as amended: when the challenge does not occur in the header, with all of Bearer,
  realm, service and scope read without regard to case, \<open>fallback\<close> throws an Error
  whose message is the text around the header as received, and leaves the provider as
  it was.
\<close>

theorem fallback_rejects:
  assumes "\<not> challenge_pattern h"
  shows "fallback this h =
           (Inl (Error (str ''Unable to parse WWW-Authenticate header: \"'' @ h @ str ''\"'')), this)"
  using assms by (simp add: fallback_None exec_None_iff)

theorem fallback_rejects_witness:
  "\<not> challenge_pattern basic_header \<and>
   fallback basic_provider basic_header =
     (Inl (Error (str ''Unable to parse WWW-Authenticate header: \"'' @ basic_header @ str ''\"'')),
      basic_provider)"
proof -
  have "exec wwwAuthenticateHeaderRegex basic_header = None" by code_simp
  then have p: "\<not> challenge_pattern basic_header" by (simp add: exec_None_iff)
  from fallback_rejects [OF p, of basic_provider] p show ?thesis by simp
qed

text \<open>
  C4 as written does not hold: a header whose first field is spelled \<open>Realm\<close> is not
  of the pattern the specification words, where only the scheme keyword is free in its
  case, and \<open>fallback\<close> accepts it, since flag \<open>i\<close> covers the whole expression.
\<close>

theorem fallback_capital_counterexample:
  "\<not> spec_challenge_pattern capital_header \<and>
   fst (fallback basic_provider capital_header) = Inr ()"
proof -
  have "\<not> sublist (str ''realm=\"'') capital_header" by code_simp
  then have "\<not> spec_challenge_pattern capital_header"
    using spec_challenge_pattern_realm by blast
  moreover have "fst (fallback basic_provider capital_header) = Inr ()" by code_simp
  ultimately show ?thesis by simp
qed

text \<open>
  C9: when the expression does not match the header, \<open>fallback\<close> throws; and whenever
  \<open>fallback\<close> throws, the provider is as it was: endpoint, service, default scopes and
  \<open>didFallback\<close> keep their values.
\<close>

theorem fallback_failure_keeps_state:
  "(exec wwwAuthenticateHeaderRegex h = None \<longrightarrow> (\<exists>msg. fst (fallback this h) = Inl (Error msg))) \<and>
   ((\<exists>e. fst (fallback this h) = Inl e) \<longrightarrow>
      snd (fallback this h) = this \<and>
      oAuthEndpoint (snd (fallback this h)) = oAuthEndpoint this \<and>
      oAuthService (snd (fallback this h)) = oAuthService this \<and>
      defaultScopes (snd (fallback this h)) = defaultScopes this \<and>
      didFallback (snd (fallback this h)) = didFallback this)"
  using fallback_Inl [of this h] by (auto simp: fallback_None)

theorem fallback_failure_keeps_state_witness:
  "exec wwwAuthenticateHeaderRegex basic_header = None \<and>
   (\<exists>msg. fst (fallback basic_provider basic_header) = Inl (Error msg)) \<and>
   snd (fallback basic_provider basic_header) = basic_provider \<and>
   \<not> didFallback (snd (fallback basic_provider basic_header))"
proof -
  have n: "exec wwwAuthenticateHeaderRegex basic_header = None" by code_simp
  have d: "\<not> didFallback basic_provider" by code_simp
  from fallback_failure_keeps_state [of basic_header basic_provider] n d show ?thesis by auto
qed

section \<open>Credentials and sessions\<close>

lemma l10n_username:
  "l10n_t (str ''Could not load username for {0}'') k = str ''Could not load username for '' @ k"
  by (simp add: str_def)

lemma l10n_secret:
  "l10n_t (str ''Could not load secret for {0}'') k = str ''Could not load secret for '' @ k"
  by (simp add: str_def)

lemma l10n_unauthorized:
  "l10n_t (str ''Request to '{0}' failed with status code 401: Unauthorized'') url =
     str ''Request to '' @ 0x27 # url @ 0x27 # str '' failed with status code 401: Unauthorized''"
  by (simp add: str_def)

lemma token_Inr: "body \<noteq> JNull \<Longrightarrow> \<exists>tok. token body = Inr tok"
  by (cases body) simp_all

lemma token_Inl: "token body = Inl e \<Longrightarrow> body = JNull"
  by (cases body) simp_all

text \<open>
  C5: when the secret store answers, \<open>getBasicCredentials\<close> throws "Could not load
  username" for a stored username that is undefined, null or empty; it throws for a
  secret that is undefined or null ("Could not load secret" when the username is there);
  and with a non-empty username it returns any string secret, the empty one too.
\<close>

theorem getBasicCredentials_cases:
  assumes "memento_get h (storageKey this @ str ''.username'') = uv"
    and "secret_get h (storageKey this @ str ''.secret'') = Inr sv"
  shows "(uv = Undefined \<or> uv = Null \<or> uv = Value [] \<longrightarrow>
            getBasicCredentials h this =
              Inl (Error (str ''Could not load username for '' @ storageKey this))) \<and>
         (sv = Undefined \<or> sv = Null \<longrightarrow> (\<exists>msg. getBasicCredentials h this = Inl (Error msg))) \<and>
         ((\<exists>u. uv = Value u \<and> u \<noteq> []) \<and> (sv = Undefined \<or> sv = Null) \<longrightarrow>
            getBasicCredentials h this =
              Inl (Error (str ''Could not load secret for '' @ storageKey this))) \<and>
         (\<forall>u s. uv = Value u \<and> u \<noteq> [] \<and> sv = Value s \<longrightarrow>
            getBasicCredentials h this = Inr \<lparr>username = u, secret = s\<rparr>)"
  using assms
  by (cases uv; cases sv) (auto simp: getBasicCredentials_def l10n_username l10n_secret)

theorem getBasicCredentials_cases_witness:
  "getBasicCredentials (example_host (Value []) token_response) basic_provider =
     Inr \<lparr>username = str ''alice'', secret = []\<rparr> \<and>
   (\<exists>msg. getBasicCredentials (example_host Null token_response) basic_provider = Inl (Error msg))"
proof -
  have m: "memento_get (example_host sv token_response) (storageKey basic_provider @ str ''.username'')
             = Value (str ''alice'')" for sv
    by (simp add: example_host_def basic_provider_def BasicOAuthProvider_def str_def)
  have s: "secret_get (example_host sv token_response) (storageKey basic_provider @ str ''.secret'')
             = Inr sv" for sv
    by (simp add: example_host_def basic_provider_def BasicOAuthProvider_def str_def)
  have ne: "str ''alice'' \<noteq> []" by (simp add: str_def)
  from getBasicCredentials_cases [OF m s, of "Value []"]
       getBasicCredentials_cases [OF m s, of Null] ne
  show ?thesis by simp
qed

text \<open>
  C7: with the endpoint or the service absent, \<open>getSession\<close> first gets the
  credentials and throws what that throws; otherwise it hands no request to \<open>fetch\<close>
  and returns the session basic/Basic whose access token is the base64 text of
  username, colon, secret, with the scopes as the caller gave them.
\<close>

theorem getSession_basic:
  assumes "oAuthEndpoint this = None \<or> oAuthService this = None"
  shows "(\<forall>e. getBasicCredentials h this = Inl e \<longrightarrow> getSession h this sc = (Inl e, [])) \<and>
         (\<forall>c. getBasicCredentials h this = Inr c \<longrightarrow>
            getSession h this sc =
              (Inr \<lparr>session_id = str ''basic'',
                    session_type = str ''Basic'',
                    session_account = \<lparr>label = username c, account_id = username c\<rparr>,
                    accessToken = Some (JString (base64 (utf8 (username c @ str '':'' @ secret c)))),
                    scopes = sc\<rparr>, []))"
  using assms by (auto simp: getSession_def getBasicAuthToken_def)

theorem getSession_basic_witness:
  "oAuthEndpoint basic_provider = None \<and>
   getSession (example_host (Value (str ''s3cr3t'')) token_response) basic_provider [str ''registry:catalog:*''] =
     (Inr \<lparr>session_id = str ''basic'',
           session_type = str ''Basic'',
           session_account = \<lparr>label = str ''alice'', account_id = str ''alice''\<rparr>,
           accessToken = Some (JString (str ''YWxpY2U6czNjcjN0'')),
           scopes = [str ''registry:catalog:*'']\<rparr>, [])"
proof -
  have m: "oAuthEndpoint basic_provider = None"
    by (simp add: basic_provider_def BasicOAuthProvider_def)
  have c: "getBasicCredentials (example_host (Value (str ''s3cr3t'')) token_response) basic_provider =
             Inr \<lparr>username = str ''alice'', secret = str ''s3cr3t''\<rparr>"
    by code_simp
  have t: "base64 (utf8 (str ''alice'' @ str '':'' @ str ''s3cr3t'')) = str ''YWxpY2U6czNjcjN0''"
    by code_simp
  from getSession_basic [of basic_provider "example_host (Value (str ''s3cr3t'')) token_response"
         "[str ''registry:catalog:*'']"] m c t
  show ?thesis by simp
qed

lemma httpRequest_refused:
  "new_Request h url request = Inl e \<Longrightarrow> httpRequest h url request t = (Inl e, [])"
  by (simp add: httpRequest_def Let_def)

lemma httpRequest_sent:
  "new_Request h url request = Inr () \<Longrightarrow> snd (httpRequest h url request t) = [(url, request)]"
  by (simp add: httpRequest_def Let_def)

lemma httpRequest_Inl:
  "new_Request h url request = Inr () \<Longrightarrow> fetch h url request = Inl e \<Longrightarrow>
     fst (httpRequest h url request t) = Inl e"
  by (simp add: httpRequest_def Let_def)

lemma httpRequest_401:
  "new_Request h url request = Inr () \<Longrightarrow> fetch h url request = Inr response \<Longrightarrow>
   response_status response = 401 \<Longrightarrow> t \<noteq> Some False \<Longrightarrow>
     fst (httpRequest h url request t) =
       Inl (UnauthorizedError
             (str ''Request to '' @ 0x27 # url @ 0x27 # str '' failed with status code 401: Unauthorized''))"
  by (cases t) (auto simp: httpRequest_def Let_def l10n_unauthorized)

lemma httpRequest_Inr:
  "new_Request h url request = Inr () \<Longrightarrow> fetch h url request = Inr response \<Longrightarrow>
   response_status response \<noteq> 401 \<or> t = Some False \<Longrightarrow>
     fst (httpRequest h url request t) =
       Inr \<lparr>headersLike = fold (\<lambda>(header, v) hs. hs(header \<mapsto> v)) (response_headers response) Map.empty,
            status = response_status response,
            statusText = response_statusText response,
            succeeded = (200 \<le> response_status response \<and> response_status response < 300),
            json = response_json response\<rparr>"
  by (cases t) (auto simp: httpRequest_def Let_def)

lemma new_Request_cases:
  "(\<exists>e. new_Request h url request = Inl e) \<or> new_Request h url request = Inr ()"
  by (cases "new_Request h url request") auto

text \<open>
  C3: when \<open>fetch\<close> answers the request that \<open>new Request\<close> built, \<open>httpRequest\<close>
  with \<open>throwOnFailure\<close> left out or true throws exactly when the status is 401, and
  then an UnauthorizedError whose message holds the URL; with \<open>throwOnFailure\<close> false,
  or with any other status, it returns a response whose \<open>succeeded\<close> says that the
  status is from 200 up to 299. When \<open>new Request\<close> throws, there is no response:
  \<open>httpRequest\<close> throws the same and hands nothing to \<open>fetch\<close>.
\<close>

theorem httpRequest_unauthorized:
  assumes "fetch h url request = Inr response"
  shows "(\<forall>e. new_Request h url request = Inl e \<longrightarrow> httpRequest h url request t = (Inl e, [])) \<and>
         (new_Request h url request = Inr () \<longrightarrow>
            (t \<noteq> Some False \<longrightarrow>
               ((\<exists>e. fst (httpRequest h url request t) = Inl e) \<longleftrightarrow> response_status response = 401) \<and>
               (response_status response = 401 \<longrightarrow>
                  fst (httpRequest h url request t) =
                    Inl (UnauthorizedError
                       (str ''Request to '' @ 0x27 # url @ 0x27 #
                        str '' failed with status code 401: Unauthorized'')))) \<and>
            (t = Some False \<or> response_status response \<noteq> 401 \<longrightarrow>
               (\<exists>r. fst (httpRequest h url request t) = Inr r \<and>
                    status r = response_status response \<and>
                    (succeeded r \<longleftrightarrow> 200 \<le> response_status response \<and> response_status response < 300))))"
proof -
  have "httpRequest h url request t = (Inl e, [])" if "new_Request h url request = Inl e" for e
    using that by (rule httpRequest_refused)
  moreover have "(t \<noteq> Some False \<longrightarrow>
               ((\<exists>e. fst (httpRequest h url request t) = Inl e) \<longleftrightarrow> response_status response = 401) \<and>
               (response_status response = 401 \<longrightarrow>
                  fst (httpRequest h url request t) =
                    Inl (UnauthorizedError
                       (str ''Request to '' @ 0x27 # url @ 0x27 #
                        str '' failed with status code 401: Unauthorized'')))) \<and>
            (t = Some False \<or> response_status response \<noteq> 401 \<longrightarrow>
               (\<exists>r. fst (httpRequest h url request t) = Inr r \<and>
                    status r = response_status response \<and>
                    (succeeded r \<longleftrightarrow> 200 \<le> response_status response \<and> response_status response < 300)))"
    if a: "new_Request h url request = Inr ()"
    using httpRequest_401 [OF a assms, of t] httpRequest_Inr [OF a assms, of t]
    by (cases "response_status response = 401"; cases "t = Some False") auto
  ultimately show ?thesis by blast
qed

theorem httpRequest_unauthorized_witness:
  "(\<exists>e. fst (httpRequest (example_host Null unauthorized_response) (str ''https://registry.example/v2/'')
            \<lparr>method = str ''GET'', headers = []\<rparr> None) = Inl e) \<and>
   (\<exists>r. fst (httpRequest (example_host Null unauthorized_response) (str ''https://registry.example/v2/'')
            \<lparr>method = str ''GET'', headers = []\<rparr> (Some False)) = Inr r \<and> \<not> succeeded r) \<and>
   (\<exists>r. fst (httpRequest (example_host Null forbidden_response) (str ''https://registry.example/v2/'')
            \<lparr>method = str ''GET'', headers = []\<rparr> None) = Inr r \<and> \<not> succeeded r)"
proof -
  have f: "fetch (example_host Null response) (str ''https://registry.example/v2/'')
             \<lparr>method = str ''GET'', headers = []\<rparr> = Inr response" for response
    by (simp add: example_host_def)
  have a: "new_Request (example_host Null response) (str ''https://registry.example/v2/'')
             \<lparr>method = str ''GET'', headers = []\<rparr> = Inr ()" for response
    by (simp add: new_Request_def example_host_def)
  have u: "response_status unauthorized_response = 401"
    by (simp add: unauthorized_response_def)
  have b: "response_status forbidden_response = 403"
    by (simp add: forbidden_response_def)
  from httpRequest_unauthorized [OF f [of unauthorized_response], where t = None]
       httpRequest_unauthorized [OF f [of unauthorized_response], where t = "Some False"]
       httpRequest_unauthorized [OF f [of forbidden_response], where t = None] a u b
  show ?thesis by auto
qed

lemma getSession_oauth:
  assumes "getBasicCredentials h this = Inr c"
    and "oAuthEndpoint this = Some endpoint"
    and "oAuthService this = Some service"
    and "request = \<lparr>method = str ''GET'',
                  headers =
                    [(str ''Authorization'', str ''Basic '' @ base64 (utf8 (username c @ str '':'' @ secret c))),
                     (str ''grant_type'', str ''password''),
                     (str ''service'', service),
                     (str ''scope'',
                        join ((case defaultScopes this of None \<Rightarrow> [] | Some ds \<Rightarrow> ds) @ sc) (str '' ''))]\<rparr>"
  shows "getSession h this sc =
           (case fst (httpRequest h endpoint request None) of
              Inl e \<Rightarrow> Inl e
            | Inr r \<Rightarrow>
                (case json r of
                   Inl e \<Rightarrow> Inl e
                 | Inr body \<Rightarrow>
                     (case token body of
                        Inl e \<Rightarrow> Inl e
                      | Inr tok \<Rightarrow> Inr \<lparr>session_id = str ''oauth'',
                         session_type = str ''Bearer'',
                         session_account = \<lparr>label = username c, account_id = username c\<rparr>,
                         accessToken = tok,
                         scopes = sc\<rparr>)),
            snd (httpRequest h endpoint request None))"
proof -
  let ?request = "\<lparr>method = str ''GET'',
                  headers =
                    [(str ''Authorization'', str ''Basic '' @ base64 (utf8 (username c @ str '':'' @ secret c))),
                     (str ''grant_type'', str ''password''),
                     (str ''service'', service),
                     (str ''scope'',
                        join ((case defaultScopes this of None \<Rightarrow> [] | Some ds \<Rightarrow> ds) @ sc) (str '' ''))]\<rparr>"
  obtain result sent where r: "httpRequest h endpoint ?request None = (result, sent)"
    by (cases "httpRequest h endpoint ?request None")
  have "getSession h this sc =
           (case fst (httpRequest h endpoint ?request None) of
              Inl e \<Rightarrow> Inl e
            | Inr r \<Rightarrow>
                (case json r of
                   Inl e \<Rightarrow> Inl e
                 | Inr body \<Rightarrow>
                     (case token body of
                        Inl e \<Rightarrow> Inl e
                      | Inr tok \<Rightarrow> Inr \<lparr>session_id = str ''oauth'',
                         session_type = str ''Bearer'',
                         session_account = \<lparr>label = username c, account_id = username c\<rparr>,
                         accessToken = tok,
                         scopes = sc\<rparr>)),
            snd (httpRequest h endpoint ?request None))"
    using assms(1-3) r
    unfolding getSession_def getBasicAuthToken_def
    by (auto simp: Let_def split: sum.splits)
  then show ?thesis unfolding assms(4) .
qed

lemma getSession_oauth_refused:
  assumes "getBasicCredentials h this = Inr c"
    and "oAuthEndpoint this = Some endpoint"
    and "oAuthService this = Some service"
    and "request = \<lparr>method = str ''GET'',
                  headers =
                    [(str ''Authorization'', str ''Basic '' @ base64 (utf8 (username c @ str '':'' @ secret c))),
                     (str ''grant_type'', str ''password''),
                     (str ''service'', service),
                     (str ''scope'',
                        join ((case defaultScopes this of None \<Rightarrow> [] | Some ds \<Rightarrow> ds) @ sc) (str '' ''))]\<rparr>"
    and "new_Request h endpoint request = Inl e"
  shows "getSession h this sc = (Inl e, [])"
  using getSession_oauth [OF assms(1-4)] httpRequest_refused [OF assms(5), of None] by simp

lemma getSession_oauth_sent:
  assumes "getBasicCredentials h this = Inr c"
    and "oAuthEndpoint this = Some endpoint"
    and "oAuthService this = Some service"
    and "request = \<lparr>method = str ''GET'',
                  headers =
                    [(str ''Authorization'', str ''Basic '' @ base64 (utf8 (username c @ str '':'' @ secret c))),
                     (str ''grant_type'', str ''password''),
                     (str ''service'', service),
                     (str ''scope'',
                        join ((case defaultScopes this of None \<Rightarrow> [] | Some ds \<Rightarrow> ds) @ sc) (str '' ''))]\<rparr>"
    and "new_Request h endpoint request = Inr ()"
  shows "snd (getSession h this sc) = [(endpoint, request)]"
  using getSession_oauth [OF assms(1-4)] httpRequest_sent [OF assms(5), of None] by simp

lemma getSession_oauth_session:
  assumes "getBasicCredentials h this = Inr c"
    and "oAuthEndpoint this = Some endpoint"
    and "oAuthService this = Some service"
    and "request = \<lparr>method = str ''GET'',
                  headers =
                    [(str ''Authorization'', str ''Basic '' @ base64 (utf8 (username c @ str '':'' @ secret c))),
                     (str ''grant_type'', str ''password''),
                     (str ''service'', service),
                     (str ''scope'',
                        join ((case defaultScopes this of None \<Rightarrow> [] | Some ds \<Rightarrow> ds) @ sc) (str '' ''))]\<rparr>"
    and s: "fst (getSession h this sc) = Inr s"
  shows "session_id s = str ''oauth'' \<and> session_type s = str ''Bearer'' \<and> scopes s = sc \<and>
         (\<exists>response body.
            new_Request h endpoint request = Inr () \<and>
            fetch h endpoint request = Inr response \<and>
            response_json response = Inr body \<and>
            token body = Inr (accessToken s))"
proof -
  note g = getSession_oauth [OF assms(1-4)]
  from new_Request_cases [of h endpoint request] show ?thesis
  proof
    assume "\<exists>e. new_Request h endpoint request = Inl e"
    then obtain e where "new_Request h endpoint request = Inl e" by blast
    from httpRequest_refused [OF this, of None] g s show ?thesis by simp
  next
    assume a: "new_Request h endpoint request = Inr ()"
    show ?thesis
    proof (cases "fetch h endpoint request")
      case (Inl e)
      with g s httpRequest_Inl [OF a Inl, of None] show ?thesis by simp
    next
      case (Inr response)
      show ?thesis
      proof (cases "response_status response = 401")
        case True
        with g s httpRequest_401 [OF a Inr True, of None] show ?thesis by simp
      next
        case False
        with g s httpRequest_Inr [OF a Inr, of None] Inr a show ?thesis
          by (auto split: sum.splits)
      qed
    qed
  qed
qed

lemma getSession_no_credentials:
  "getBasicCredentials h this = Inl e \<Longrightarrow> getSession h this sc = (Inl e, [])"
  by (simp add: getSession_def)

text \<open>
  C2, as amended: with endpoint and service set, \<open>getSession\<close> throws without a
  request when the credentials do not load. With the credentials loaded it builds a
  GET to the endpoint with the headers Authorization (Basic and the base64 text of
  username, colon, secret), grant_type password, service, and scope, the default scopes
  followed by the caller's scopes joined by single spaces. When \<open>new Request\<close> accepts
  it, that one request is handed to \<open>fetch\<close>; when \<open>new Request\<close> refuses it, as for
  a header value with a line feed, none is and the call throws. A session it returns is
  oauth/Bearer with the token of the parsed body as access token.
\<close>

theorem getSession_oauth_request:
  assumes "oAuthEndpoint this = Some endpoint"
    and "oAuthService this = Some service"
  shows "(\<forall>e. getBasicCredentials h this = Inl e \<longrightarrow> getSession h this sc = (Inl e, [])) \<and>
         (\<forall>c request.
            getBasicCredentials h this = Inr c \<and>
            request = \<lparr>method = str ''GET'',
                  headers =
                    [(str ''Authorization'', str ''Basic '' @ base64 (utf8 (username c @ str '':'' @ secret c))),
                     (str ''grant_type'', str ''password''),
                     (str ''service'', service),
                     (str ''scope'',
                        join ((case defaultScopes this of None \<Rightarrow> [] | Some ds \<Rightarrow> ds) @ sc) (str '' ''))]\<rparr> \<longrightarrow>
            (\<forall>e. new_Request h endpoint request = Inl e \<longrightarrow> getSession h this sc = (Inl e, [])) \<and>
            (new_Request h endpoint request = Inr () \<longrightarrow>
               snd (getSession h this sc) = [(endpoint, request)]) \<and>
            (\<forall>s. fst (getSession h this sc) = Inr s \<longrightarrow>
               session_id s = str ''oauth'' \<and> session_type s = str ''Bearer'' \<and> scopes s = sc \<and>
               (\<exists>response body.
                  new_Request h endpoint request = Inr () \<and>
                  fetch h endpoint request = Inr response \<and>
                  response_json response = Inr body \<and>
                  token body = Inr (accessToken s))))"
proof (intro conjI allI impI)
  fix e assume "getBasicCredentials h this = Inl e"
  then show "getSession h this sc = (Inl e, [])" by (rule getSession_no_credentials)
next
  fix c request e
  assume "getBasicCredentials h this = Inr c \<and>
            request = \<lparr>method = str ''GET'',
                  headers =
                    [(str ''Authorization'', str ''Basic '' @ base64 (utf8 (username c @ str '':'' @ secret c))),
                     (str ''grant_type'', str ''password''),
                     (str ''service'', service),
                     (str ''scope'',
                        join ((case defaultScopes this of None \<Rightarrow> [] | Some ds \<Rightarrow> ds) @ sc) (str '' ''))]\<rparr>"
    and "new_Request h endpoint request = Inl e"
  then show "getSession h this sc = (Inl e, [])"
    using getSession_oauth_refused [OF _ assms, of h c request sc e] by blast
next
  fix c request
  assume "getBasicCredentials h this = Inr c \<and>
            request = \<lparr>method = str ''GET'',
                  headers =
                    [(str ''Authorization'', str ''Basic '' @ base64 (utf8 (username c @ str '':'' @ secret c))),
                     (str ''grant_type'', str ''password''),
                     (str ''service'', service),
                     (str ''scope'',
                        join ((case defaultScopes this of None \<Rightarrow> [] | Some ds \<Rightarrow> ds) @ sc) (str '' ''))]\<rparr>"
    and "new_Request h endpoint request = Inr ()"
  then show "snd (getSession h this sc) = [(endpoint, request)]"
    using getSession_oauth_sent [OF _ assms, of h c request sc] by blast
next
  fix c request s
  assume cr: "getBasicCredentials h this = Inr c \<and>
            request = \<lparr>method = str ''GET'',
                  headers =
                    [(str ''Authorization'', str ''Basic '' @ base64 (utf8 (username c @ str '':'' @ secret c))),
                     (str ''grant_type'', str ''password''),
                     (str ''service'', service),
                     (str ''scope'',
                        join ((case defaultScopes this of None \<Rightarrow> [] | Some ds \<Rightarrow> ds) @ sc) (str '' ''))]\<rparr>"
    and s: "fst (getSession h this sc) = Inr s"
  note t = getSession_oauth_session [OF conjunct1 [OF cr] assms conjunct2 [OF cr] s]
  from t show "session_id s = str ''oauth''" by blast
  from t show "session_type s = str ''Bearer''" by blast
  from t show "scopes s = sc" by blast
  from t show "\<exists>response body.
                  new_Request h endpoint request = Inr () \<and>
                  fetch h endpoint request = Inr response \<and>
                  response_json response = Inr body \<and>
                  token body = Inr (accessToken s)" by blast
qed

lemma example_credentials:
  "getBasicCredentials (example_host (Value (str ''s3cr3t'')) response) oauth_provider =
     Inr \<lparr>username = str ''alice'', secret = str ''s3cr3t''\<rparr>"
  by (simp add: getBasicCredentials_def example_host_def oauth_provider_def str_def)

lemma example_request:
  "\<lparr>method = str ''GET'',
    headers =
      [(str ''Authorization'',
          str ''Basic '' @ base64 (utf8 (username \<lparr>username = str ''alice'', secret = str ''s3cr3t''\<rparr>
             @ str '':'' @ secret \<lparr>username = str ''alice'', secret = str ''s3cr3t''\<rparr>))),
       (str ''grant_type'', str ''password''),
       (str ''service'', str ''registry.example''),
       (str ''scope'',
          join ((case defaultScopes oauth_provider of None \<Rightarrow> [] | Some ds \<Rightarrow> ds)
                 @ [str ''repository:y:pull'']) (str '' ''))]\<rparr> =
   \<lparr>method = str ''GET'',
         headers =
           [(str ''Authorization'', str ''Basic YWxpY2U6czNjcjN0''),
            (str ''grant_type'', str ''password''),
            (str ''service'', str ''registry.example''),
            (str ''scope'', str ''repository:x:pull repository:y:pull'')]\<rparr>"
  by code_simp

lemma example_accepted:
  "new_Request (example_host stored_secret response) (str ''https://auth.example/token'')
     \<lparr>method = str ''GET'',
         headers =
           [(str ''Authorization'', str ''Basic YWxpY2U6czNjcjN0''),
            (str ''grant_type'', str ''password''),
            (str ''service'', str ''registry.example''),
            (str ''scope'', str ''repository:x:pull repository:y:pull'')]\<rparr> = Inr ()"
  by code_simp

theorem getSession_oauth_request_witness:
  "snd (getSession (example_host (Value (str ''s3cr3t'')) token_response) oauth_provider
         [str ''repository:y:pull'']) =
     [(str ''https://auth.example/token'',
       \<lparr>method = str ''GET'',
         headers =
           [(str ''Authorization'', str ''Basic YWxpY2U6czNjcjN0''),
            (str ''grant_type'', str ''password''),
            (str ''service'', str ''registry.example''),
            (str ''scope'', str ''repository:x:pull repository:y:pull'')]\<rparr>)] \<and>
   (\<exists>s. fst (getSession (example_host (Value (str ''s3cr3t'')) token_response) oauth_provider
              [str ''repository:y:pull'']) = Inr s \<and>
        session_id s = str ''oauth'' \<and> accessToken s = Some (JString (str ''abc'')))"
proof -
  have e: "oAuthEndpoint oauth_provider = Some (str ''https://auth.example/token'')"
    and v: "oAuthService oauth_provider = Some (str ''registry.example'')"
    by (simp_all add: oauth_provider_def)
  note t = getSession_oauth_request [OF e v,
      of "example_host (Value (str ''s3cr3t'')) token_response" "[str ''repository:y:pull'']"]
  note u = t [THEN conjunct2, rule_format, OF conjI [OF example_credentials example_request [symmetric]]]
  have "fst (getSession (example_host (Value (str ''s3cr3t'')) token_response) oauth_provider
              [str ''repository:y:pull'']) =
        Inr \<lparr>session_id = str ''oauth'', session_type = str ''Bearer'',
             session_account = \<lparr>label = str ''alice'', account_id = str ''alice''\<rparr>,
             accessToken = Some (JString (str ''abc'')), scopes = [str ''repository:y:pull'']\<rparr>"
    by code_simp
  with u example_accepted [of "Value (str ''s3cr3t'')" token_response] show ?thesis by simp
qed

text \<open>
  C2 as written does not hold for every caller scope list: with endpoint and service
  set and the credentials loaded, a scope that holds a line feed makes \<open>new Request\<close>
  throw, so \<open>getSession\<close> throws and no GET is issued.
\<close>

theorem getSession_newline_scope_counterexample:
  "oAuthEndpoint oauth_provider = Some (str ''https://auth.example/token'') \<and>
   oAuthService oauth_provider = Some (str ''registry.example'') \<and>
   getBasicCredentials (example_host (Value (str ''s3cr3t'')) token_response) oauth_provider =
     Inr \<lparr>username = str ''alice'', secret = str ''s3cr3t''\<rparr> \<and>
   getSession (example_host (Value (str ''s3cr3t'')) token_response) oauth_provider [newline_scope] =
     (Inl (TypeError (str ''repository:x:pull '' @ newline_scope @ str '' is not a legal HTTP header value'')),
      [])"
proof -
  have "getSession (example_host (Value (str ''s3cr3t'')) token_response) oauth_provider [newline_scope] =
     (Inl (TypeError (str ''repository:x:pull '' @ newline_scope @ str '' is not a legal HTTP header value'')),
      [])"
    by code_simp
  then show ?thesis by (simp add: example_credentials) (simp add: oauth_provider_def)
qed

text \<open>
  C10, as amended: with endpoint and service set and the credentials loaded,
  \<open>getSession\<close> never looks at \<open>succeeded\<close>. It throws exactly when the request is
  not built or not carried (\<open>new Request\<close> throws or \<open>fetch\<close> fails), the status is
  401, \<open>json()\<close> fails, or the body parses to \<open>null\<close>; for every other answer,
  whatever its status, it returns the session oauth/Bearer whose access token is the
  token of the parsed body, \<open>undefined\<close> when there is none.
\<close>

theorem getSession_oauth_response:
  assumes "getBasicCredentials h this = Inr c"
    and "oAuthEndpoint this = Some endpoint"
    and "oAuthService this = Some service"
    and "request = \<lparr>method = str ''GET'',
                  headers =
                    [(str ''Authorization'', str ''Basic '' @ base64 (utf8 (username c @ str '':'' @ secret c))),
                     (str ''grant_type'', str ''password''),
                     (str ''service'', service),
                     (str ''scope'',
                        join ((case defaultScopes this of None \<Rightarrow> [] | Some ds \<Rightarrow> ds) @ sc) (str '' ''))]\<rparr>"
  shows "((\<exists>e. fst (getSession h this sc) = Inl e) \<longleftrightarrow>
            (\<exists>e. new_Request h endpoint request = Inl e) \<or>
            (\<exists>e. fetch h endpoint request = Inl e) \<or>
            (\<exists>response. fetch h endpoint request = Inr response \<and>
               (response_status response = 401 \<or> (\<exists>e. response_json response = Inl e) \<or>
                response_json response = Inr JNull))) \<and>
         (\<forall>response body.
            new_Request h endpoint request = Inr () \<and>
            fetch h endpoint request = Inr response \<and> response_status response \<noteq> 401 \<and>
            response_json response = Inr body \<and> body \<noteq> JNull \<longrightarrow>
            (\<exists>tok. token body = Inr tok \<and>
               fst (getSession h this sc) =
                 Inr \<lparr>session_id = str ''oauth'',
                         session_type = str ''Bearer'',
                         session_account = \<lparr>label = username c, account_id = username c\<rparr>,
                         accessToken = tok,
                         scopes = sc\<rparr>))"
proof -
  note g = getSession_oauth [OF assms]
  from new_Request_cases [of h endpoint request] show ?thesis
  proof
    assume "\<exists>e. new_Request h endpoint request = Inl e"
    then obtain e where n: "new_Request h endpoint request = Inl e" by blast
    from httpRequest_refused [OF n, of None] g n show ?thesis by auto
  next
    assume a: "new_Request h endpoint request = Inr ()"
    show ?thesis
    proof (cases "fetch h endpoint request")
      case (Inl e)
      with g a httpRequest_Inl [OF a Inl, of None] show ?thesis by auto
    next
      case (Inr response)
      show ?thesis
      proof (cases "response_status response = 401")
        case True
        with g a Inr httpRequest_401 [OF a Inr True, of None] show ?thesis by auto
      next
        case False
        note r = httpRequest_Inr [OF a Inr, of None]
        show ?thesis
        proof (cases "response_json response")
          case (Inl e)
          with g a Inr False r show ?thesis by auto
        next
          case body: (Inr body)
          show ?thesis
          proof (cases "body = JNull")
            case True
            with g a Inr False r body show ?thesis by auto
          next
            case nn: False
            from token_Inr [OF nn] obtain tok where "token body = Inr tok" by blast
            with g a Inr False r body nn show ?thesis by auto
          qed
        qed
      qed
    qed
  qed
qed

theorem getSession_oauth_response_witness:
  "response_status forbidden_response = 403 \<and>
   fst (getSession (example_host (Value (str ''s3cr3t'')) forbidden_response) oauth_provider
          [str ''repository:y:pull'']) =
     Inr \<lparr>session_id = str ''oauth'', session_type = str ''Bearer'',
          session_account = \<lparr>label = str ''alice'', account_id = str ''alice''\<rparr>,
          accessToken = None, scopes = [str ''repository:y:pull'']\<rparr>"
proof -
  have e: "oAuthEndpoint oauth_provider = Some (str ''https://auth.example/token'')"
    and v: "oAuthService oauth_provider = Some (str ''registry.example'')"
    by (simp_all add: oauth_provider_def)
  note t = getSession_oauth_response [OF example_credentials e v example_request [symmetric],
      of forbidden_response]
  have f: "fetch (example_host (Value (str ''s3cr3t'')) forbidden_response) u r = Inr forbidden_response"
    for u r
    by (simp add: example_host_def)
  have b: "response_status forbidden_response = 403"
    "response_json forbidden_response = Inr (JObject [(str ''errors'', JArray [])])"
    by (simp_all add: forbidden_response_def)
  have k: "token (JObject [(str ''errors'', JArray [])]) = Inr None"
    by (simp add: str_def)
  from t f b k example_accepted [of "Value (str ''s3cr3t'')" forbidden_response]
  show ?thesis by simp
qed

text \<open>
  C10 as written does not hold: the endpoint answers 200 with the body \<open>null\<close>, which
  parses, and \<open>getSession\<close> throws a TypeError when it reads the token.
\<close>

theorem getSession_null_body_counterexample:
  "response_status null_response = 200 \<and>
   response_json null_response = Inr JNull \<and>
   fst (getSession (example_host (Value (str ''s3cr3t'')) null_response) oauth_provider
          [str ''repository:y:pull'']) =
     Inl (TypeError (str ''Cannot read properties of null (reading 'token')''))"
proof -
  have "fst (getSession (example_host (Value (str ''s3cr3t'')) null_response) oauth_provider
          [str ''repository:y:pull'']) =
     Inl (TypeError (str ''Cannot read properties of null (reading 'token')''))"
    by code_simp
  then show ?thesis by (simp add: null_response_def)
qed

section \<open>Sequences of calls\<close>

lemma step_other:
  "(\<forall>header. c \<noteq> Fallback header) \<Longrightarrow> snd (step this c) = this"
  by (cases c) (auto simp: removeSession_def split: sum.splits)

lemma step_other_outcome:
  "(\<forall>header. c \<noteq> Fallback header) \<Longrightarrow> fst (step this c) \<noteq> ReturnedVoid"
  by (cases c) (auto simp: removeSession_def split: sum.splits)

lemma step_Fallback:
  "(fst (step this (Fallback h)) \<noteq> ReturnedVoid \<and> snd (step this (Fallback h)) = this) \<or>
   (\<exists>realm service scope.
      step this (Fallback h) =
        (ReturnedVoid,
         this\<lparr>oAuthEndpoint := Some realm, oAuthService := Some service,
              defaultScopes := Some (split scope 0x20), private_didFallback := True\<rparr>))"
proof (cases "exec wwwAuthenticateHeaderRegex h")
  case None
  then show ?thesis by (simp add: fallback_None)
next
  case (Some gs)
  from fallback_Some [OF Some, of this] obtain realm service scope where
    "fallback this h =
       (Inr (), this\<lparr>oAuthEndpoint := Some realm, oAuthService := Some service,
                     defaultScopes := Some (split scope 0x20), private_didFallback := True\<rparr>)"
    by blast
  then have "step this (Fallback h) =
        (ReturnedVoid,
         this\<lparr>oAuthEndpoint := Some realm, oAuthService := Some service,
              defaultScopes := Some (split scope 0x20), private_didFallback := True\<rparr>)"
    by simp
  then show ?thesis by blast
qed

lemma step_both_or_neither:
  "(oAuthEndpoint this = None \<longleftrightarrow> oAuthService this = None) \<Longrightarrow>
   (oAuthEndpoint (snd (step this c)) = None \<longleftrightarrow> oAuthService (snd (step this c)) = None)"
proof (cases "\<exists>header. c = Fallback header")
  case True
  then obtain h where c: "c = Fallback h" by blast
  assume "oAuthEndpoint this = None \<longleftrightarrow> oAuthService this = None"
  with step_Fallback [of this h] show ?thesis unfolding c by auto
next
  case False
  assume "oAuthEndpoint this = None \<longleftrightarrow> oAuthService this = None"
  with step_other [of c this] False show ?thesis by simp
qed

lemma run_both_or_neither:
  "(oAuthEndpoint this = None \<longleftrightarrow> oAuthService this = None) \<Longrightarrow>
   (oAuthEndpoint (run this cs) = None \<longleftrightarrow> oAuthService (run this cs) = None)"
proof (induction cs arbitrary: this)
  case Nil
  then show ?case by simp
next
  case (Cons c cs)
  from Cons.IH [OF step_both_or_neither [OF Cons.prems, of c]] show ?case by simp
qed

lemma step_didFallback:
  "didFallback (snd (step this c)) \<longleftrightarrow>
     didFallback this \<or> (case c of Fallback header \<Rightarrow> fst (step this c) = ReturnedVoid | _ \<Rightarrow> False)"
proof (cases "\<exists>header. c = Fallback header")
  case True
  then obtain h where c: "c = Fallback h" by blast
  from step_Fallback [of this h] show ?thesis unfolding c by (auto simp: didFallback_def)
next
  case False
  with step_other [of c this] show ?thesis by (cases c) auto
qed

lemma run_didFallback:
  "didFallback (run this cs) \<longleftrightarrow> didFallback this \<or> fallback_succeeded this cs"
proof (induction cs arbitrary: this)
  case Nil
  then show ?case by simp
next
  case (Cons c cs)
  show ?case using Cons.IH [of "snd (step this c)"] step_didFallback [of this c] by auto
qed

lemma step_oauth_mode:
  "oAuthEndpoint this \<noteq> None \<and> oAuthService this \<noteq> None \<Longrightarrow>
   oAuthEndpoint (snd (step this c)) \<noteq> None \<and> oAuthService (snd (step this c)) \<noteq> None"
proof (cases "\<exists>header. c = Fallback header")
  case True
  then obtain h where c: "c = Fallback h" by blast
  assume "oAuthEndpoint this \<noteq> None \<and> oAuthService this \<noteq> None"
  with step_Fallback [of this h] show ?thesis unfolding c by auto
next
  case False
  assume "oAuthEndpoint this \<noteq> None \<and> oAuthService this \<noteq> None"
  with step_other [of c this] False show ?thesis by simp
qed

lemma run_oauth_mode:
  "oAuthEndpoint this \<noteq> None \<and> oAuthService this \<noteq> None \<Longrightarrow>
   oAuthEndpoint (run this cs) \<noteq> None \<and> oAuthService (run this cs) \<noteq> None"
proof (induction cs arbitrary: this)
  case Nil
  then show ?case by simp
next
  case (Cons c cs)
  from Cons.IH [OF step_oauth_mode [OF Cons.prems, of c]] show ?case by simp
qed

text \<open>
  C6: after any sequence of \<open>getSession\<close>, \<open>removeSession\<close>, \<open>fallback\<close> and
  \<open>didFallback\<close> calls on a new provider, whatever each call returns or throws, the
  endpoint is absent exactly when the service is; and a call other than \<open>fallback\<close>
  leaves every field of the provider as it was.
\<close>

theorem both_or_neither:
  "(oAuthEndpoint (run (BasicOAuthProvider key) cs) = None \<longleftrightarrow>
      oAuthService (run (BasicOAuthProvider key) cs) = None) \<and>
   ((\<forall>header. c \<noteq> Fallback header) \<longrightarrow>
      snd (step this c) = this \<and>
      oAuthEndpoint (snd (step this c)) = oAuthEndpoint this \<and>
      oAuthService (snd (step this c)) = oAuthService this \<and>
      defaultScopes (snd (step this c)) = defaultScopes this \<and>
      didFallback (snd (step this c)) = didFallback this)"
  using run_both_or_neither [of "BasicOAuthProvider key" cs] step_other [of c this]
  by (auto simp: BasicOAuthProvider_def)

theorem both_or_neither_witness:
  "snd (step oauth_provider (GetSession (example_host Null token_response) [])) = oauth_provider \<and>
   snd (step oauth_provider (RemoveSession Undefined)) = oauth_provider \<and>
   snd (step oauth_provider DidFallback) = oauth_provider \<and>
   oAuthEndpoint (run (BasicOAuthProvider (str ''registry''))
       [Fallback basic_header, Fallback example_header, DidFallback]) \<noteq> None \<and>
   oAuthService (run (BasicOAuthProvider (str ''registry''))
       [Fallback basic_header, Fallback example_header, DidFallback]) \<noteq> None"
proof -
  have e: "oAuthEndpoint (run (BasicOAuthProvider (str ''registry''))
       [Fallback basic_header, Fallback example_header, DidFallback]) \<noteq> None"
    by code_simp
  from both_or_neither [of "str ''registry''" "[Fallback basic_header, Fallback example_header, DidFallback]"
         "GetSession (example_host Null token_response) []" oauth_provider]
       both_or_neither [of "str ''registry''" "[]" "RemoveSession Undefined" oauth_provider]
       both_or_neither [of "str ''registry''" "[]" DidFallback oauth_provider] e
  show ?thesis by simp
qed

text \<open>
  C8: after any sequence of calls on a new provider \<open>didFallback\<close> is true exactly when
  some \<open>fallback\<close> call of the sequence returned; once true it stays true under any
  further calls; and a provider with endpoint and service set keeps both set under any
  further calls.
\<close>

theorem didFallback_history:
  "(didFallback (run (BasicOAuthProvider key) cs) \<longleftrightarrow> fallback_succeeded (BasicOAuthProvider key) cs) \<and>
   (didFallback this \<longrightarrow> didFallback (run this cs)) \<and>
   (oAuthEndpoint this \<noteq> None \<and> oAuthService this \<noteq> None \<longrightarrow>
      oAuthEndpoint (run this cs) \<noteq> None \<and> oAuthService (run this cs) \<noteq> None)"
  using run_didFallback [of "BasicOAuthProvider key" cs] run_didFallback [of this cs]
    run_oauth_mode [of this cs]
  by (auto simp: BasicOAuthProvider_def didFallback_def)

theorem didFallback_history_witness:
  "fallback_succeeded (BasicOAuthProvider (str ''registry''))
     [Fallback basic_header, DidFallback, Fallback example_header, Fallback basic_header] \<and>
   didFallback (run (BasicOAuthProvider (str ''registry''))
     [Fallback basic_header, DidFallback, Fallback example_header, Fallback basic_header]) \<and>
   \<not> didFallback (run (BasicOAuthProvider (str ''registry''))
     [Fallback basic_header, DidFallback, RemoveSession Null]) \<and>
   didFallback oauth_provider \<and>
   didFallback (run oauth_provider [Fallback basic_header, RemoveSession Null]) \<and>
   oAuthEndpoint (run oauth_provider [Fallback basic_header, RemoveSession Null]) \<noteq> None"
proof -
  have s: "fallback_succeeded (BasicOAuthProvider (str ''registry''))
     [Fallback basic_header, DidFallback, Fallback example_header, Fallback basic_header]"
    by code_simp
  have n: "\<not> fallback_succeeded (BasicOAuthProvider (str ''registry''))
     [Fallback basic_header, DidFallback, RemoveSession Null]"
    by code_simp
  have d: "didFallback oauth_provider"
    and m: "oAuthEndpoint oauth_provider \<noteq> None \<and> oAuthService oauth_provider \<noteq> None"
    by (simp_all add: didFallback_def oauth_provider_def)
  from didFallback_history [of "str ''registry''"
         "[Fallback basic_header, DidFallback, Fallback example_header, Fallback basic_header]"
         oauth_provider]
       didFallback_history [of "str ''registry''"
         "[Fallback basic_header, DidFallback, RemoveSession Null]" oauth_provider]
       didFallback_history [of "str ''registry''"
         "[Fallback basic_header, RemoveSession Null]" oauth_provider]
       s n d m
  show ?thesis by simp
qed

end
